theory Spec2Isabelle
  imports Complex_Main "HOL-Library.Sublist"
begin

section \<open>Data model\<close>

text \<open>
  The workflow of \<^verbatim>\<open>process_file.py\<close> passes one event from step to step. The event
  classes repeat their predecessor's fields, so they are modelled as one chain of record
  extensions; \<^verbatim>\<open>FileEvent\<close> and \<^verbatim>\<open>DownloadFileEvent\<close> both carry only \<^verbatim>\<open>file_id\<close>.
  Byte strings and text are \<open>string\<close>.
\<close>

record file_event =
  file_id :: string

datatype level = Info | Warning | Error

record ui_toast =
  level :: level
  message :: string

text \<open>The schemas of \<^verbatim>\<open>schemas.py\<close>; every field is \<^verbatim>\<open>Optional\<close>.\<close>

record form_10k_data =
  total_revenue :: "string option"
  net_income :: "string option"
  total_assets :: "string option"
  total_liabilities :: "string option"

record form_10q_data =
  quarterly_revenue :: "string option"
  quarterly_net_income :: "string option"
  total_assets :: "string option"
  total_liabilities :: "string option"

record event_8k =
  category :: "string option"
  description :: "string option"

record form_8k_data =
  events :: "event_8k list option"

record my_schema =
  document_type :: "string option"
  form_10k_data :: "form_10k_data option"
  form_10q_data :: "form_10q_data option"
  form_8k_data :: "form_8k_data option"

text \<open>
  \<^verbatim>\<open>ExtractedData.create(data=..., file_id=..., file_name=..., file_hash=...)\<close>: the
  container the record step stores. \<^verbatim>\<open>file_hash\<close> is optional in the container; the
  extract step always fills it.
\<close>

record extracted_data = file_event +
  data :: my_schema
  file_name :: string
  file_hash :: "string option"

text \<open>\<^verbatim>\<open>ClassifierRule(type=..., description=...)\<close> and what the classifier answers.\<close>

record classifier_rule =
  type :: string
  description :: string

record classification =
  type :: "string option"
  confidence :: "real option"

record file_classification =
  result :: "classification option"

record classification_result =
  items :: "file_classification list"

text \<open>The raw output of an extraction agent (\<^verbatim>\<open>ExtractRun.data\<close>) is JSON.\<close>

datatype json =
  JNull | JBool bool | JNum int | JStr string | JArr "json list" | JObj "(string \<times> json) list"

record source_text =
  text_content :: string
  filename :: string

text \<open>The events after the download; each repeats the fields of the one before.\<close>

record file_downloaded_event = file_event +
  file_path :: string
  filename :: string

record file_parsed_event = file_downloaded_event +
  markdown_content :: string

record file_classified_event = file_parsed_event +
  document_type :: string
  confidence :: real

text \<open>
  Exceptions are values. \<open>ApiError\<close> carries the status code \<^verbatim>\<open>config.py\<close> looks at;
  \<open>CollaboratorError\<close> is any other exception raised by an external service.
\<close>

datatype error =
    ApiError nat string
  | CollaboratorError string
  | ValueError string
  | IndexError string
  | AttributeError string
  | FileNotFoundError string
  | FileExistsError string
  | OSError string
  | ValidationError string

fun str_of_error :: "error \<Rightarrow> string" where
  "str_of_error (ApiError c m) = m"
| "str_of_error (CollaboratorError m) = m"
| "str_of_error (ValueError m) = m"
| "str_of_error (IndexError m) = m"
| "str_of_error (AttributeError m) = m"
| "str_of_error (FileNotFoundError m) = m"
| "str_of_error (FileExistsError m) = m"
| "str_of_error (OSError m) = m"
| "str_of_error (ValidationError m) = m"

datatype form = Form10K | Form10Q | Form8K

text \<open>Every call the workflow makes to an external service, in the order made.\<close>

datatype call =
    GetFile string
  | ReadFileContent string
  | HttpGet string
  | AParse string
  | AGetMarkdown string
  | AClassifyFilePath "classifier_rule list" string
  | GetAgent string
  | CreateAgent string
  | AExtract string source_text
  | UntypedSearch string
  | DeleteItem string
  | CreateItem extracted_data

section \<open>The world the workflow runs in\<close>

text \<open>
  \<open>clock\<close> counts the time waited between attempts, \<open>files\<close> is the local file system
  (a flat map from path to content: opening a path for writing creates or truncates it,
  unless the environment makes the operation raise),
  \<open>store\<close> is the agent-data collection (identifier and record, oldest first), \<open>stream\<close>
  the events written to the workflow's stream, \<open>calls\<close> the service calls made so far,
  and \<open>agents\<close> the \<^verbatim>\<open>lru_cache\<close> of the three extraction-agent factories.
\<close>

record world =
  clock :: nat
  files :: "string \<rightharpoonup> string"
  store :: "(string \<times> extracted_data) list"
  stream :: "ui_toast list"
  calls :: "call list"
  agents :: "form \<rightharpoonup> string"

text \<open>
  The external services. Each answer may depend on the time of the call, so a service can
  fail on one attempt and succeed on the next. \<open>http_stream\<close> answers with the chunks
  received and, possibly, the error that interrupts the stream after them. \<open>open_error\<close>
  is the exception, if any, of opening a local path for writing; \<open>write_error\<close> is the
  exception, if any, that writing and closing a text file raises (a text that the encoding
  refuses, a full disk), together with the content left in the file. The storage
  service follows the contract of the specification (\<^verbatim>\<open>search\<close>, \<^verbatim>\<open>delete\<close>,
  \<^verbatim>\<open>create\<close> on a keyed store): a call that raises leaves the collection as it was.
\<close>

record env =
  get_file :: "nat \<Rightarrow> string \<Rightarrow> error + string"
  read_file_content :: "nat \<Rightarrow> string \<Rightarrow> error + string"
  gettempdir :: string
  http_stream :: "nat \<Rightarrow> string \<Rightarrow> error + (string list \<times> error option)"
  aparse :: "nat \<Rightarrow> string \<Rightarrow> string option \<Rightarrow> error + string"
  aget_markdown :: "nat \<Rightarrow> string \<Rightarrow> error + string"
  open_error :: "nat \<Rightarrow> string \<Rightarrow> error option"
  tmp_names :: "nat \<Rightarrow> string list"
  write_error :: "nat \<Rightarrow> string \<Rightarrow> string \<Rightarrow> (error \<times> string) option"
  aclassify_file_path ::
    "nat \<Rightarrow> classifier_rule list \<Rightarrow> string \<Rightarrow> string option \<Rightarrow> error + classification_result"
  format_percent :: "real \<Rightarrow> string"
  sha256_hexdigest :: "string \<Rightarrow> string"
  get_agent :: "nat \<Rightarrow> string \<Rightarrow> error + string"
  create_agent :: "nat \<Rightarrow> string \<Rightarrow> error + string"
  agent_name_or_default :: string
  aextract :: "nat \<Rightarrow> string \<Rightarrow> source_text \<Rightarrow> error + json"
  search_error :: "nat \<Rightarrow> string \<Rightarrow> error option"
  delete_error :: "nat \<Rightarrow> string \<Rightarrow> error option"
  create_error :: "nat \<Rightarrow> extracted_data \<Rightarrow> error option"
  assign_id :: "nat \<Rightarrow> (string \<times> extracted_data) list \<Rightarrow> string"

section \<open>Actions: state passing with exceptions\<close>

type_synonym 'a action = "world \<Rightarrow> (error + 'a) \<times> world"

definition return :: "'a \<Rightarrow> 'a action" where
  "return x w = (Inr x, w)"

definition raise :: "error \<Rightarrow> 'a action" where
  "raise e w = (Inl e, w)"

definition bind :: "'a action \<Rightarrow> ('a \<Rightarrow> 'b action) \<Rightarrow> 'b action" where
  "bind m f w = (case m w of (Inl e, w') \<Rightarrow> (Inl e, w') | (Inr x, w') \<Rightarrow> f x w')"

text \<open>\<^verbatim>\<open>try: body except Exception as e: handler\<close>; what the body did before raising stays done.\<close>

definition try_except :: "'a action \<Rightarrow> (error \<Rightarrow> 'a action) \<Rightarrow> 'a action" where
  "try_except body handler w =
     (case body w of (Inl e, w') \<Rightarrow> handler e w' | (Inr x, w') \<Rightarrow> (Inr x, w'))"

text \<open>
  \<^verbatim>\<open>try: body finally: cleanup\<close>; the cleanup runs on both exits, and an exception it
  raises replaces the body's result.
\<close>

definition try_finally :: "'a action \<Rightarrow> unit action \<Rightarrow> 'a action" where
  "try_finally body cleanup w =
     (case body w of (r, w') \<Rightarrow>
        (case cleanup w' of (Inl e, w'') \<Rightarrow> (Inl e, w'') | (Inr u, w'') \<Rightarrow> (r, w'')))"

text \<open>A service call: it is recorded, and the service answers from what it sees of the world.\<close>

definition service :: "call \<Rightarrow> (world \<Rightarrow> error + 'a) \<Rightarrow> 'a action" where
  "service c answer w = (answer w, w\<lparr>calls := calls w @ [c]\<rparr>)"

text \<open>
  The step's \<^verbatim>\<open>ctx\<close> argument, reduced to the one method the steps use,
  \<^verbatim>\<open>ctx.write_event_to_stream\<close>. The workflow's own context appends to the stream.
\<close>

type_synonym ctx = "ui_toast \<Rightarrow> unit action"

definition stream_ctx :: ctx where
  "stream_ctx toast w = (Inr (), w\<lparr>stream := stream w @ [toast]\<rparr>)"

definition UIToast :: "level \<Rightarrow> string \<Rightarrow> ui_toast" where
  "UIToast l m = \<lparr>level = l, message = m\<rparr>"

section \<open>The local file system\<close>

text \<open>\<^verbatim>\<open>os.path.join\<close> on two components: an absolute second component replaces the first.\<close>

definition os_path_join :: "string \<Rightarrow> string \<Rightarrow> string" where
  "os_path_join a b =
     (if take 1 b = ''/'' then b
      else if a = [] \<or> last a = CHR ''/'' then a @ b
      else a @ ''/'' @ b)"

text \<open>\<^verbatim>\<open>Path(p).read_bytes()\<close> and \<^verbatim>\<open>Path(p).unlink()\<close> raise on a missing file.\<close>

definition read_bytes :: "string \<Rightarrow> string action" where
  "read_bytes p w =
     (case files w p of None \<Rightarrow> (Inl (FileNotFoundError p), w) | Some b \<Rightarrow> (Inr b, w))"

definition unlink :: "string \<Rightarrow> unit action" where
  "unlink p w =
     (case files w p of
        None \<Rightarrow> (Inl (FileNotFoundError p), w)
      | Some b \<Rightarrow> (Inr (), w\<lparr>files := (files w)(p := None)\<rparr>))"

text \<open>
  \<^verbatim>\<open>tempfile.NamedTemporaryFile(mode="w", suffix=..., delete=False)\<close>. The library
  tries random names in the temporary directory until one does not exist yet, creates
  that file, empty, and gives up when all candidates exist. With \<^verbatim>\<open>delete=False\<close> the
  file stays on disk when it is closed.
\<close>

definition NamedTemporaryFile :: "env \<Rightarrow> string \<Rightarrow> string action" where
  "NamedTemporaryFile env sfx w =
     (case filter (\<lambda>p. files w p = None)
             (map (\<lambda>n. os_path_join (gettempdir env) (''tmp'' @ n @ sfx))
                (tmp_names env (clock w))) of
        [] \<Rightarrow> (Inl (FileExistsError ''No usable temporary file name found''), w)
      | p # ps \<Rightarrow> (Inr p, w\<lparr>files := (files w)(p \<mapsto> [])\<rparr>))"

text \<open>
  The body of the \<^verbatim>\<open>with\<close> block and its exit: \<^verbatim>\<open>tmp.write(content)\<close>, then the
  file is closed. Either may raise; the file is on disk in both cases.
\<close>

definition write_and_close :: "env \<Rightarrow> string \<Rightarrow> string \<Rightarrow> unit action" where
  "write_and_close env p content w =
     (case write_error env (clock w) p content of
        None \<Rightarrow> (Inr (), w\<lparr>files := (files w)(p \<mapsto> content)\<rparr>)
      | Some (e, left) \<Rightarrow> (Inl e, w\<lparr>files := (files w)(p \<mapsto> left)\<rparr>))"

text \<open>
  \<^verbatim>\<open>async with client.stream("GET", url) as response: with open(file_path, "wb") as f:
  async for chunk in response.aiter_bytes(): f.write(chunk)\<close>. A request that fails,
  or an \<^verbatim>\<open>open\<close> that raises, leaves the path untouched; once the file is open it is
  created or truncated, and a stream interrupted later leaves the chunks written so far.
\<close>

definition stream_to_file :: "env \<Rightarrow> string \<Rightarrow> string \<Rightarrow> unit action" where
  "stream_to_file env url p =
     bind (service (HttpGet url) (\<lambda>w. http_stream env (clock w) url))
       (\<lambda>(chunks, interrupted) w.
          case open_error env (clock w) p of
            Some e \<Rightarrow> (Inl e, w)
          | None \<Rightarrow>
              (case interrupted of None \<Rightarrow> Inr () | Some e \<Rightarrow> Inl e,
               w\<lparr>files := (files w)(p \<mapsto> concat chunks)\<rparr>))"

section \<open>The steps of \<^verbatim>\<open>ProcessFileWorkflow\<close>\<close>

definition run_file :: "file_event \<Rightarrow> file_event action" where
  "run_file event = return \<lparr>file_id = file_id event\<rparr>"

definition download_file :: "env \<Rightarrow> ctx \<Rightarrow> file_event \<Rightarrow> file_downloaded_event action" where
  "download_file env ctx event =
     try_except
       (bind (service (GetFile (file_id event)) (\<lambda>w. get_file env (clock w) (file_id event)))
          (\<lambda>name.
        bind (service (ReadFileContent (file_id event))
                (\<lambda>w. read_file_content env (clock w) (file_id event)))
          (\<lambda>url.
        let temp_dir = gettempdir env;
            filename = name;
            file_path = os_path_join temp_dir filename
        in
        bind (ctx (UIToast Info (''Downloading file '' @ filename))) (\<lambda>_.
        bind (stream_to_file env url file_path) (\<lambda>_.
        return \<lparr>file_id = file_id event, file_path = file_path, filename = filename\<rparr>)))))
       (\<lambda>e.
        bind (ctx (UIToast Error
                (''Error downloading file '' @ file_id event @ '': '' @ str_of_error e)))
          (\<lambda>_. raise e))"

definition parse_document :: "env \<Rightarrow> ctx \<Rightarrow> file_downloaded_event \<Rightarrow> file_parsed_event action" where
  "parse_document env ctx event =
     try_except
       (bind (ctx (UIToast Info (''Parsing document '' @ filename event))) (\<lambda>_.
        bind (service (AParse (file_path event))
                (\<lambda>w. aparse env (clock w) (file_path event) (files w (file_path event))))
          (\<lambda>parse_result.
        bind (service (AGetMarkdown parse_result) (\<lambda>w. aget_markdown env (clock w) parse_result))
          (\<lambda>markdown_content.
        bind (ctx (UIToast Info (''Successfully parsed document '' @ filename event))) (\<lambda>_.
        return \<lparr>file_id = file_id event, file_path = file_path event,
                 filename = filename event, markdown_content = markdown_content\<rparr>)))))
       (\<lambda>e.
        bind (ctx (UIToast Error
                (''Error parsing document '' @ filename event @ '': '' @ str_of_error e)))
          (\<lambda>_. raise e))"

text \<open>The classification rules, as the source writes them.\<close>

definition rules :: "classifier_rule list" where
  "rules =
     [\<lparr>classifier_rule.type = ''10-q'',
       classifier_rule.description = ''Annual report filed by publicly traded companies, containing comprehensive financial information including audited annual financial statements, total revenue, net income, total assets, and total liabilities for the fiscal year. Typically labeled as Form 10-K or 10-K Annual Report.''\<rparr>,
      \<lparr>classifier_rule.type = ''10-k'',
       classifier_rule.description = ''Quarterly report filed by publicly traded companies, containing unaudited financial statements for a specific quarter including quarterly revenue, quarterly net income, total assets, and total liabilities. Typically labeled as Form 10-Q or 10-Q Quarterly Report.''\<rparr>,
      \<lparr>classifier_rule.type = ''8-k'',
       classifier_rule.description = ''Current report filed by publicly traded companies to announce major events or material changes, such as acquisitions, executive changes, earnings announcements, or other significant corporate events. Contains event descriptions organized by Item numbers (e.g., Item 1.01, Item 2.02). Typically labeled as Form 8-K or 8-K Current Report.''\<rparr>]"

text \<open>\<^verbatim>\<open>classification_result.items[0].result\<close>, then the attribute reads on it.\<close>

definition first_result :: "classification_result \<Rightarrow> classification action" where
  "first_result r =
     (case items r of
        [] \<Rightarrow> raise (IndexError ''list index out of range'')
      | item # rest \<Rightarrow>
          (case result item of
             None \<Rightarrow> raise (AttributeError ''type'')
           | Some c \<Rightarrow> return c))"

text \<open>\<^verbatim>\<open>x or 0.0\<close>: \<^verbatim>\<open>None\<close> and zero are both falsy.\<close>

definition or_zero :: "real option \<Rightarrow> real" where
  "or_zero c = (case c of None \<Rightarrow> 0 | Some x \<Rightarrow> if x = 0 then 0 else x)"

definition str_of_optional :: "string option \<Rightarrow> string" where
  "str_of_optional s = (case s of None \<Rightarrow> ''None'' | Some x \<Rightarrow> x)"

text \<open>
  \<^verbatim>\<open>FileClassifiedEvent(...)\<close> validates its fields: \<^verbatim>\<open>document_type\<close> is declared
  \<^verbatim>\<open>str\<close>, so a missing type is rejected. (The name \<open>FileClassifiedEvent\<close> itself is the
  event constructor below.)
\<close>

definition validated_FileClassifiedEvent ::
  "file_parsed_event \<Rightarrow> string option \<Rightarrow> real \<Rightarrow> file_classified_event action" where
  "validated_FileClassifiedEvent event dt c =
     (case dt of
        None \<Rightarrow> raise (ValidationError ''document_type'')
      | Some t \<Rightarrow>
          return \<lparr>file_id = file_id event, file_path = file_path event,
                   filename = filename event, markdown_content = markdown_content event,
                   document_type = t, confidence = c\<rparr>)"

definition classify_document :: "env \<Rightarrow> ctx \<Rightarrow> file_parsed_event \<Rightarrow> file_classified_event action" where
  "classify_document env ctx event =
     try_except
       (bind (ctx (UIToast Info (''Classifying document '' @ filename event))) (\<lambda>_.
        bind (NamedTemporaryFile env ''.md'') (\<lambda>tmp_name.
        bind (write_and_close env tmp_name (markdown_content event)) (\<lambda>_.
        let temp_path = tmp_name in
        try_finally
          (bind (service (AClassifyFilePath rules temp_path)
                   (\<lambda>w. aclassify_file_path env (clock w) rules temp_path (files w temp_path)))
             (\<lambda>classification_result.
           bind (first_result classification_result) (\<lambda>classification.
           let document_type = classification.type classification;
               confidence = or_zero (classification.confidence classification)
           in
           bind (ctx (UIToast Info
                   (''Document classified as '' @ str_of_optional document_type
                    @ '' (confidence: '' @ format_percent env confidence @ '')'')))
             (\<lambda>_. validated_FileClassifiedEvent event document_type confidence))))
          (unlink temp_path)))))
       (\<lambda>e.
        bind (ctx (UIToast Error
                (''Error classifying document '' @ filename event @ '': '' @ str_of_error e)))
          (\<lambda>_. raise e))"

subsection \<open>Extraction agents (\<^verbatim>\<open>config.py\<close>)\<close>

text \<open>
  \<^verbatim>\<open>get_extract_agent_for_10k\<close> and its two siblings differ in the name suffix and the
  schema only: look the agent up by name, create it when the lookup answers 404, let any
  other error through. \<^verbatim>\<open>functools.lru_cache\<close> keeps the agent once a call has returned.
\<close>

definition agent_name :: "env \<Rightarrow> form \<Rightarrow> string" where
  "agent_name env f =
     agent_name_or_default env @ (case f of Form10K \<Rightarrow> ''-10k'' | Form10Q \<Rightarrow> ''-10q'' | Form8K \<Rightarrow> ''-8k'')"

definition get_extract_agent_for :: "env \<Rightarrow> form \<Rightarrow> string action" where
  "get_extract_agent_for env f w =
     (case agents w f of
        Some agent \<Rightarrow> (Inr agent, w)
      | None \<Rightarrow>
          bind
            (try_except
               (service (GetAgent (agent_name env f)) (\<lambda>w. get_agent env (clock w) (agent_name env f)))
               (\<lambda>e. case e of
                      ApiError status_code body \<Rightarrow>
                        if status_code = 404
                        then service (CreateAgent (agent_name env f))
                               (\<lambda>w. create_agent env (clock w) (agent_name env f))
                        else raise e
                    | _ \<Rightarrow> raise e))
            (\<lambda>agent w'. (Inr agent, w'\<lparr>agents := (agents w')(f \<mapsto> agent)\<rparr>)) w)"

definition get_extract_agent_for_10k :: "env \<Rightarrow> string action" where
  "get_extract_agent_for_10k env = get_extract_agent_for env Form10K"

definition get_extract_agent_for_10q :: "env \<Rightarrow> string action" where
  "get_extract_agent_for_10q env = get_extract_agent_for env Form10Q"

definition get_extract_agent_for_8k :: "env \<Rightarrow> string action" where
  "get_extract_agent_for_8k env = get_extract_agent_for env Form8K"

subsection \<open>Schema validation (\<^verbatim>\<open>model_validate\<close>)\<close>

text \<open>
  A field declared \<^verbatim>\<open>Optional[str]\<close> with default \<^verbatim>\<open>None\<close> accepts a missing key,
  \<^verbatim>\<open>null\<close> or a string; the input itself must be an object. Unknown keys are ignored.
\<close>

fun optional_str :: "json option \<Rightarrow> string option option" where
  "optional_str None = Some None"
| "optional_str (Some JNull) = Some None"
| "optional_str (Some (JStr s)) = Some (Some s)"
| "optional_str (Some j) = None"

definition Form10KData_model_validate :: "json \<Rightarrow> form_10k_data action" where
  "Form10KData_model_validate j =
     (case j of
        JObj kv \<Rightarrow>
          (case (optional_str (map_of kv ''total_revenue''), optional_str (map_of kv ''net_income''),
                 optional_str (map_of kv ''total_assets''), optional_str (map_of kv ''total_liabilities'')) of
             (Some a, Some b, Some c, Some d) \<Rightarrow>
               return \<lparr>total_revenue = a, net_income = b,
                        form_10k_data.total_assets = c, form_10k_data.total_liabilities = d\<rparr>
           | _ \<Rightarrow> raise (ValidationError ''Form10KData''))
      | _ \<Rightarrow> raise (ValidationError ''Form10KData''))"

definition Form10QData_model_validate :: "json \<Rightarrow> form_10q_data action" where
  "Form10QData_model_validate j =
     (case j of
        JObj kv \<Rightarrow>
          (case (optional_str (map_of kv ''quarterly_revenue''),
                 optional_str (map_of kv ''quarterly_net_income''),
                 optional_str (map_of kv ''total_assets''), optional_str (map_of kv ''total_liabilities'')) of
             (Some a, Some b, Some c, Some d) \<Rightarrow>
               return \<lparr>quarterly_revenue = a, quarterly_net_income = b,
                        total_assets = c, total_liabilities = d\<rparr>
           | _ \<Rightarrow> raise (ValidationError ''Form10QData''))
      | _ \<Rightarrow> raise (ValidationError ''Form10QData''))"

definition Event8K_validate :: "json \<Rightarrow> event_8k option" where
  "Event8K_validate j =
     (case j of
        JObj kv \<Rightarrow>
          (case (optional_str (map_of kv ''category''), optional_str (map_of kv ''description'')) of
             (Some a, Some b) \<Rightarrow> Some \<lparr>category = a, description = b\<rparr>
           | _ \<Rightarrow> None)
      | _ \<Rightarrow> None)"

fun all_some :: "'a option list \<Rightarrow> 'a list option" where
  "all_some [] = Some []"
| "all_some (None # xs) = None"
| "all_some (Some x # xs) = (case all_some xs of None \<Rightarrow> None | Some ys \<Rightarrow> Some (x # ys))"

definition Form8KData_model_validate :: "json \<Rightarrow> form_8k_data action" where
  "Form8KData_model_validate j =
     (case j of
        JObj kv \<Rightarrow>
          (case map_of kv ''events'' of
             None \<Rightarrow> return \<lparr>events = None\<rparr>
           | Some JNull \<Rightarrow> return \<lparr>events = None\<rparr>
           | Some (JArr js) \<Rightarrow>
               (case all_some (map Event8K_validate js) of
                  Some es \<Rightarrow> return \<lparr>events = Some es\<rparr>
                | None \<Rightarrow> raise (ValidationError ''Form8KData''))
           | Some other \<Rightarrow> raise (ValidationError ''Form8KData''))
      | _ \<Rightarrow> raise (ValidationError ''Form8KData''))"

subsection \<open>Extract and record\<close>

definition extract_data_based_on_type ::
  "env \<Rightarrow> ctx \<Rightarrow> file_classified_event \<Rightarrow> extracted_data action" where
  "extract_data_based_on_type env ctx event =
     try_except
       (bind (read_bytes (file_path event)) (\<lambda>file_content.
        let file_hash = sha256_hexdigest env file_content;
            source_text = \<lparr>text_content = markdown_content event,
                           source_text.filename = filename event\<rparr>
        in
        bind (ctx (UIToast Info
                (''Extracting data from '' @ document_type event @ '' filing: '' @ filename event)))
          (\<lambda>_.
        bind
          (if document_type event = ''10-k'' then
             bind (get_extract_agent_for_10k env) (\<lambda>agent.
             bind (service (AExtract agent source_text) (\<lambda>w. aextract env (clock w) agent source_text))
               (\<lambda>extracted_result.
             bind (Form10KData_model_validate extracted_result) (\<lambda>form_10k_data.
             return \<lparr>my_schema.document_type = Some (document_type event),
                      form_10k_data = Some form_10k_data,
                      form_10q_data = None,
                      form_8k_data = None\<rparr>)))
           else if document_type event = ''10-q'' then
             bind (get_extract_agent_for_10q env) (\<lambda>agent.
             bind (service (AExtract agent source_text) (\<lambda>w. aextract env (clock w) agent source_text))
               (\<lambda>extracted_result.
             bind (Form10QData_model_validate extracted_result) (\<lambda>form_10q_data.
             return \<lparr>my_schema.document_type = Some (document_type event),
                      form_10k_data = None,
                      form_10q_data = Some form_10q_data,
                      form_8k_data = None\<rparr>)))
           else if document_type event = ''8-k'' then
             bind (get_extract_agent_for_8k env) (\<lambda>agent.
             bind (service (AExtract agent source_text) (\<lambda>w. aextract env (clock w) agent source_text))
               (\<lambda>extracted_result.
             bind (Form8KData_model_validate extracted_result) (\<lambda>form_8k_data.
             return \<lparr>my_schema.document_type = Some (document_type event),
                      form_10k_data = None,
                      form_10q_data = None,
                      form_8k_data = Some form_8k_data\<rparr>)))
           else raise (ValueError (''Unknown document type: '' @ document_type event)))
          (\<lambda>final_data.
        let extracted_data = \<lparr>file_id = file_id event, data = final_data,
                              file_name = filename event, file_hash = Some file_hash\<rparr>
        in
        bind (ctx (UIToast Info
                (''Successfully extracted data from '' @ document_type event @ '' filing'')))
          (\<lambda>_. return extracted_data)))))
       (\<lambda>e.
        bind (ctx (UIToast Error
                (''Error extracting data from file '' @ filename event @ '': '' @ str_of_error e)))
          (\<lambda>_. raise e))"

text \<open>
  The agent-data collection. \<^verbatim>\<open>untyped_search\<close> with the filter
  \<^verbatim>\<open>{"file_hash": {"eq": h}}\<close> answers the stored items whose hash is \<open>h\<close>;
  \<^verbatim>\<open>delete_item\<close> removes the item with the identifier; \<^verbatim>\<open>create_item\<close> appends the
  record under the identifier the collection assigns.
\<close>

definition untyped_search :: "env \<Rightarrow> string \<Rightarrow> (string \<times> extracted_data) list action" where
  "untyped_search env h =
     service (UntypedSearch h)
       (\<lambda>w. case search_error env (clock w) h of
              Some e \<Rightarrow> Inl e
            | None \<Rightarrow> Inr (filter (\<lambda>item. file_hash (snd item) = Some h) (store w)))"

definition delete_item :: "env \<Rightarrow> string \<Rightarrow> unit action" where
  "delete_item env i w =
     (case delete_error env (clock w) i of
        Some e \<Rightarrow> (Inl e, w\<lparr>calls := calls w @ [DeleteItem i]\<rparr>)
      | None \<Rightarrow>
          (Inr (), w\<lparr>calls := calls w @ [DeleteItem i],
                      store := filter (\<lambda>item. fst item \<noteq> i) (store w)\<rparr>))"

definition create_item :: "env \<Rightarrow> extracted_data \<Rightarrow> string action" where
  "create_item env d w =
     (case create_error env (clock w) d of
        Some e \<Rightarrow> (Inl e, w\<lparr>calls := calls w @ [CreateItem d]\<rparr>)
      | None \<Rightarrow>
          (Inr (assign_id env (clock w) (store w)),
           w\<lparr>calls := calls w @ [CreateItem d],
             store := store w @ [(assign_id env (clock w) (store w), d)]\<rparr>))"

text \<open>
  \<^verbatim>\<open>await asyncio.gather(*tasks)\<close>: every task runs to its end, whatever the others do;
  the call raises when one of them raised. The tasks are run here in list order, and the
  error reported is the first in that order.
\<close>

fun gather :: "unit action list \<Rightarrow> unit action" where
  "gather [] w = (Inr (), w)"
| "gather (t # ts) w =
     (case t w of (r, w') \<Rightarrow>
        (case gather ts w' of (rs, w'') \<Rightarrow>
           (case r of Inl e \<Rightarrow> (Inl e, w'') | Inr u \<Rightarrow> (rs, w''))))"

definition record_extracted_data :: "env \<Rightarrow> ctx \<Rightarrow> extracted_data \<Rightarrow> string action" where
  "record_extracted_data env ctx event_data =
     try_except
       (bind (ctx (UIToast Info (''Recorded extracted data for file '' @ file_name event_data)))
          (\<lambda>_.
        bind
          (case file_hash event_data of
             None \<Rightarrow> return ()
           | Some h \<Rightarrow>
               if h = [] then return ()
               else
                 bind (untyped_search env h) (\<lambda>existing_data.
                 if existing_data = [] then return ()
                 else gather (map (\<lambda>item. delete_item env (fst item)) existing_data)))
          (\<lambda>_.
        bind (create_item env event_data) (\<lambda>item_id. return item_id))))
       (\<lambda>e.
        bind (ctx (UIToast Error
                (''Error recording extracted data for file '' @ file_name event_data @ '': ''
                 @ str_of_error e)))
          (\<lambda>_. raise e))"

section \<open>The workflow: dispatch and retry\<close>

datatype event =
    FileEvent file_event
  | DownloadFileEvent file_event
  | FileDownloadedEvent file_downloaded_event
  | FileParsedEvent file_parsed_event
  | FileClassifiedEvent file_classified_event
  | ExtractedEvent extracted_data
  | StopEvent string

text \<open>
  The workflow hands each event to the step whose parameter has the event's class; the
  step's return value is the next event. No step accepts \<^verbatim>\<open>StopEvent\<close>.
\<close>

fun step :: "env \<Rightarrow> ctx \<Rightarrow> event \<Rightarrow> event action" where
  "step env ctx (FileEvent e) = bind (run_file e) (\<lambda>r. return (DownloadFileEvent r))"
| "step env ctx (DownloadFileEvent e) =
     bind (download_file env ctx e) (\<lambda>r. return (FileDownloadedEvent r))"
| "step env ctx (FileDownloadedEvent e) =
     bind (parse_document env ctx e) (\<lambda>r. return (FileParsedEvent r))"
| "step env ctx (FileParsedEvent e) =
     bind (classify_document env ctx e) (\<lambda>r. return (FileClassifiedEvent r))"
| "step env ctx (FileClassifiedEvent e) =
     bind (extract_data_based_on_type env ctx e) (\<lambda>r. return (ExtractedEvent r))"
| "step env ctx (ExtractedEvent d) =
     bind (record_extracted_data env ctx d) (\<lambda>r. return (StopEvent r))"
| "step env ctx (StopEvent r) = return (StopEvent r)"

fun stage :: "event \<Rightarrow> nat" where
  "stage (FileEvent e) = 0"
| "stage (DownloadFileEvent e) = 1"
| "stage (FileDownloadedEvent e) = 2"
| "stage (FileParsedEvent e) = 3"
| "stage (FileClassifiedEvent e) = 4"
| "stage (ExtractedEvent d) = 5"
| "stage (StopEvent r) = 6"

definition sleep :: "nat \<Rightarrow> world \<Rightarrow> world" where
  "sleep d w = w\<lparr>clock := clock w + d\<rparr>"

text \<open>
  Modelled from the spec: the retry wrapper, \<^verbatim>\<open>ConstantDelayRetryPolicy\<close> and the
  workflow runner that applies it, which belong to the \<^verbatim>\<open>workflows\<close> package and are not
  in the source tree. The specification's contract: re-invoke the operation up to \<open>N\<close>
  times in total on any raised failure, waiting \<open>D\<close> between attempts, and propagate the
  last failure when the attempts are exhausted.
\<close>

fun retry :: "nat \<Rightarrow> nat \<Rightarrow> 'a action \<Rightarrow> 'a action" where
  "retry (Suc (Suc n)) d operation w =
     (case operation w of
        (Inr x, w') \<Rightarrow> (Inr x, w')
      | (Inl e, w') \<Rightarrow> retry (Suc n) d operation (sleep d w'))"
| "retry n d operation w = operation w"

text \<open>
  Every step carries the decorator
  \<^verbatim>\<open>@step(retry_policy=ConstantDelayRetryPolicy(maximum_attempts=3, delay=10))\<close>.
\<close>

definition maximum_attempts :: nat where
  "maximum_attempts = 3"

definition delay :: nat where
  "delay = 10"

definition run_step :: "env \<Rightarrow> ctx \<Rightarrow> event \<Rightarrow> event action" where
  "run_step env ctx ev = retry maximum_attempts delay (step env ctx ev)"

datatype outcome = Completed string | Failed error

text \<open>
  The run: events are dispatched until a \<^verbatim>\<open>StopEvent\<close> arrives, whose result is the
  result of the run, or until a step has failed on its last attempt, whose exception ends
  the run.
\<close>

function (sequential) run_from :: "env \<Rightarrow> ctx \<Rightarrow> event \<Rightarrow> world \<Rightarrow> outcome \<times> world" where
  "run_from env ctx (StopEvent r) w = (Completed r, w)"
| "run_from env ctx ev w =
     (case run_step env ctx ev w of
        (Inl e, w') \<Rightarrow> (Failed e, w')
      | (Inr ev', w') \<Rightarrow> run_from env ctx ev' w')"
  by pat_completeness auto
termination
proof -
  have origin: "\<exists>w0. operation w0 = (Inr x, w')"
    if "retry n d operation w = (Inr x, w')" for n d and operation :: "event action" and w x w'
    using that
  proof (induction n d operation w rule: retry.induct)
    case (1 n d operation w)
    then show ?case by (auto split: prod.splits sum.splits)
  qed auto
  have next_stage: "stage ev' = Suc (stage ev)"
    if "step env ctx ev w0 = (Inr ev', w')" "stage ev < 6" for env ctx ev w0 ev' w'
    using that by (cases ev) (auto simp: bind_def return_def split: prod.splits sum.splits)
  have progress: "stage ev' = Suc (stage ev)"
    if "(Inr ev', w') = run_step env ctx ev w" "stage ev < 6" for env ctx ev w ev' w'
  proof -
    from that(1) obtain w0 where "step env ctx ev w0 = (Inr ev', w')"
      unfolding run_step_def using origin[of maximum_attempts delay "step env ctx ev" w ev' w']
      by auto
    from next_stage[OF this that(2)] show ?thesis .
  qed
  show ?thesis
    by (relation "measure (\<lambda>(env, ctx, ev, w). 6 - stage ev)") (auto dest!: progress)
qed

text \<open>\<^verbatim>\<open>workflow.run(start_event=FileEvent(file_id=...))\<close>.\<close>

definition run :: "env \<Rightarrow> ctx \<Rightarrow> string \<Rightarrow> world \<Rightarrow> outcome \<times> world" where
  "run env ctx fid w = run_from env ctx (FileEvent \<lparr>file_id = fid\<rparr>) w"

section \<open>Notions used in the statements\<close>

text \<open>The stored items that carry a given fingerprint.\<close>

definition with_hash :: "string \<Rightarrow> (string \<times> extracted_data) list \<Rightarrow> (string \<times> extracted_data) list" where
  "with_hash h st = filter (\<lambda>item. file_hash (snd item) = Some h) st"

text \<open>
  Two other contexts: one with every emission removed, and one whose
  \<^verbatim>\<open>write_event_to_stream\<close> raises.
\<close>

definition silent_ctx :: ctx where
  "silent_ctx toast w = (Inr (), w)"

definition failing_ctx :: "error \<Rightarrow> ctx" where
  "failing_ctx e toast w = (Inl e, w)"

text \<open>An action keeps a property of the world; two actions agree up to the stream.\<close>

definition preserves :: "(world \<Rightarrow> bool) \<Rightarrow> 'a action \<Rightarrow> bool" where
  "preserves P a = (\<forall>w. P w \<longrightarrow> P (snd (a w)))"

definition erase :: "world \<Rightarrow> world" where
  "erase w = w\<lparr>stream := []\<rparr>"

definition agree :: "'a action \<Rightarrow> 'a action \<Rightarrow> bool" where
  "agree a b =
     (\<forall>w1 w2. erase w1 = erase w2 \<longrightarrow>
        fst (a w1) = fst (b w2) \<and> erase (snd (a w1)) = erase (snd (b w2)))"

section \<open>A concrete environment\<close>

text \<open>
  A file store with two identifiers holding the same bytes under different names, a
  classifier that answers \<open>10-k\<close> without a confidence, and a collection that never fails.
\<close>

definition demo_env :: env where
  "demo_env =
     \<lparr>get_file = (\<lambda>t i. if i = ''f2'' then Inr ''copy.pdf'' else Inr ''report.pdf''),
      read_file_content = (\<lambda>t i. Inr (''https://files/'' @ i)),
      gettempdir = ''/tmp'',
      http_stream = (\<lambda>t u. Inr ([''%PDF'', ''-1.7''], None)),
      aparse = (\<lambda>t p c. case c of None \<Rightarrow> Inl (CollaboratorError ''no such file'') | Some b \<Rightarrow> Inr ''job''),
      aget_markdown = (\<lambda>t j. Inr ''Form 10-K''),
      open_error = (\<lambda>t p. None),
      tmp_names = (\<lambda>t. [''a1b2c3d4'']),
      write_error = (\<lambda>t p c. None),
      aclassify_file_path =
        (\<lambda>t rs p c. Inr \<lparr>items = [\<lparr>result = Some \<lparr>type = Some ''10-k'', confidence = None\<rparr>\<rparr>]\<rparr>),
      format_percent = (\<lambda>c. ''0.00%''),
      sha256_hexdigest = (\<lambda>b. ''sha256:'' @ b),
      get_agent = (\<lambda>t n. Inl (ApiError 404 ''Not Found'')),
      create_agent = (\<lambda>t n. Inr n),
      agent_name_or_default = ''extraction-review-tmp5-classify-sec'',
      aextract = (\<lambda>t a s. Inr (JObj [(''total_revenue'', JStr ''100M''), (''net_income'', JStr ''10M'')])),
      search_error = (\<lambda>t h. None),
      delete_error = (\<lambda>t i. None),
      create_error = (\<lambda>t d. None),
      assign_id = (\<lambda>t st. ''item-'' @ replicate (length st) (CHR ''i''))\<rparr>"

definition world0 :: world where
  "world0 = \<lparr>clock = 0, files = Map.empty, store = [], stream = [], calls = [], agents = Map.empty\<rparr>"

text \<open>
  Variations: a file store that is down until time 20, one that stays down, a classifier
  that answers a label no branch of the extract step knows, a collection whose
  \<^verbatim>\<open>create_item\<close> fails, a disk that is full when the scratch file is written, and a
  classifier that is down.
\<close>

definition flaky_env :: env where
  "flaky_env =
     demo_env\<lparr>get_file := (\<lambda>t i. if t < 20 then Inl (CollaboratorError ''503'') else Inr ''report.pdf'')\<rparr>"

definition down_env :: env where
  "down_env = demo_env\<lparr>get_file := (\<lambda>t i. Inl (CollaboratorError ''503''))\<rparr>"

definition unknown_env :: env where
  "unknown_env =
     demo_env\<lparr>aclassify_file_path :=
        (\<lambda>t rs p c. Inr \<lparr>items = [\<lparr>result = Some \<lparr>type = Some ''unknown-form'', confidence = Some 0.5\<rparr>\<rparr>]\<rparr>)\<rparr>"

definition full_env :: env where
  "full_env = demo_env\<lparr>create_error := (\<lambda>t d. Some (CollaboratorError ''507''))\<rparr>"

definition disk_full_env :: env where
  "disk_full_env =
     demo_env\<lparr>write_error := (\<lambda>t p c. Some (OSError ''No space left on device'', []))\<rparr>"

definition classifier_down_env :: env where
  "classifier_down_env =
     demo_env\<lparr>aclassify_file_path :=
        (\<lambda>t rs p c. Inl (CollaboratorError (case c of None \<Rightarrow> ''no such file'' | Some m \<Rightarrow> ''500'')))\<rparr>"

text \<open>The events of the demo run, and a record stored by an earlier run of the same bytes.\<close>

definition downloaded0 :: file_downloaded_event where
  "downloaded0 = \<lparr>file_id = ''f1'', file_path = ''/tmp/report.pdf'', filename = ''report.pdf''\<rparr>"

definition parsed0 :: file_parsed_event where
  "parsed0 = \<lparr>file_id = ''f1'', file_path = ''/tmp/report.pdf'', filename = ''report.pdf'',
               markdown_content = ''Form 10-K''\<rparr>"

definition classified0 :: file_classified_event where
  "classified0 = \<lparr>file_id = ''f1'', file_path = ''/tmp/report.pdf'', filename = ''report.pdf'',
                   markdown_content = ''Form 10-K'', document_type = ''10-k'', confidence = 0\<rparr>"

definition classified_unknown :: file_classified_event where
  "classified_unknown =
     \<lparr>file_id = ''f1'', file_path = ''/tmp/report.pdf'', filename = ''report.pdf'',
      markdown_content = ''Form 10-K'', document_type = ''unknown-form'', confidence = 0.5\<rparr>"

definition schema0 :: my_schema where
  "schema0 =
     \<lparr>my_schema.document_type = Some ''10-k'',
      form_10k_data = Some \<lparr>total_revenue = Some ''100M'', net_income = Some ''10M'',
                             form_10k_data.total_assets = None,
                             form_10k_data.total_liabilities = None\<rparr>,
      form_10q_data = None,
      form_8k_data = None\<rparr>"

definition extracted1 :: extracted_data where
  "extracted1 = \<lparr>file_id = ''f1'', data = schema0, file_name = ''report.pdf'',
                  file_hash = Some ''sha256:%PDF-1.7''\<rparr>"

definition extracted2 :: extracted_data where
  "extracted2 = \<lparr>file_id = ''f2'', data = schema0, file_name = ''copy.pdf'',
                  file_hash = Some ''sha256:%PDF-1.7''\<rparr>"

definition world1 :: world where
  "world1 = world0\<lparr>files := [''/tmp/report.pdf'' \<mapsto> ''%PDF-1.7''],
                   store := [(''item-'', extracted1)]\<rparr>"

section \<open>Evaluation and basic facts\<close>

lemmas action_defs = bind_def return_def raise_def try_except_def try_finally_def service_def

lemmas step_defs =
  run_file_def download_file_def parse_document_def classify_document_def
  extract_data_based_on_type_def record_extracted_data_def

lemmas helper_defs =
  UIToast_def os_path_join_def read_bytes_def unlink_def NamedTemporaryFile_def
  stream_to_file_def write_and_close_def first_result_def or_zero_def str_of_optional_def validated_FileClassifiedEvent_def
  agent_name_def get_extract_agent_for_def get_extract_agent_for_10k_def
  get_extract_agent_for_10q_def get_extract_agent_for_8k_def
  Form10KData_model_validate_def Form10QData_model_validate_def Form8KData_model_validate_def
  Event8K_validate_def untyped_search_def delete_item_def create_item_def sleep_def Let_def

lemmas run_defs = run_def run_step_def maximum_attempts_def delay_def numeral_3_eq_3

lemmas demo_defs =
  demo_env_def flaky_env_def down_env_def unknown_env_def full_env_def classifier_down_env_def
  disk_full_env_def
  world0_def world1_def
  downloaded0_def parsed0_def classified0_def classified_unknown_def schema0_def extracted1_def extracted2_def

lemmas eval = run_defs step_defs helper_defs action_defs stream_ctx_def demo_defs

text \<open>
  C3. Every step runs under the same policy: the step is invoked at most three times,
  the second and third invocation ten time units after the failure before; the first
  invocation that returns decides the next event, and when all three raise, the run ends
  as failed with the exception of the third, as raised.
\<close>

theorem retry_policy_every_step:
  assumes "stage ev < 6"
  shows "run_from env ctx ev w =
     (case step env ctx ev w of
        (Inr ev1, w1) \<Rightarrow> run_from env ctx ev1 w1
      | (Inl e1, w1) \<Rightarrow>
         (case step env ctx ev (sleep 10 w1) of
            (Inr ev2, w2) \<Rightarrow> run_from env ctx ev2 w2
          | (Inl e2, w2) \<Rightarrow>
             (case step env ctx ev (sleep 10 w2) of
                (Inr ev3, w3) \<Rightarrow> run_from env ctx ev3 w3
              | (Inl e3, w3) \<Rightarrow> (Failed e3, w3))))"
  using assms
  by (cases ev)
     (simp_all add: run_step_def maximum_attempts_def delay_def numeral_3_eq_3
        split: prod.splits sum.splits)

theorem retry_policy_every_step_witness:
  "stage (DownloadFileEvent \<lparr>file_id = ''f1''\<rparr>) < 6
   \<and> fst (run_from flaky_env stream_ctx (DownloadFileEvent \<lparr>file_id = ''f1''\<rparr>) world0)
       = Completed ''item-''
   \<and> clock (snd (run_from flaky_env stream_ctx (DownloadFileEvent \<lparr>file_id = ''f1''\<rparr>) world0)) = 20
   \<and> fst (run_from down_env stream_ctx (DownloadFileEvent \<lparr>file_id = ''f1''\<rparr>) world0)
       = Failed (CollaboratorError ''503'')
   \<and> clock (snd (run_from down_env stream_ctx (DownloadFileEvent \<lparr>file_id = ''f1''\<rparr>) world0)) = 20"
proof -
  have h: "stage (DownloadFileEvent \<lparr>file_id = ''f1''\<rparr>) < 6" by simp
  from retry_policy_every_step[OF h, of flaky_env stream_ctx world0]
       retry_policy_every_step[OF h, of down_env stream_ctx world0]
  show ?thesis
    by (simp add: eval)
qed

section \<open>The classify step\<close>

lemmas classify_unfold =
  classify_document_def action_defs stream_ctx_def NamedTemporaryFile_def write_and_close_def
  first_result_def validated_FileClassifiedEvent_def unlink_def Let_def

lemma classify_effect:
  assumes "classify_document env stream_ctx event w = (r, w')"
  shows "store w' = store w \<and> clock w' = clock w
       \<and> ((calls w' = calls w \<and> isl r) \<or> (\<exists>p. calls w' = calls w @ [AClassifyFilePath rules p]))
       \<and> (case r of Inl e \<Rightarrow> True | Inr c \<Rightarrow> file_path c = file_path event)"
  using assms
  by (auto simp: classify_unfold
        split: prod.splits sum.splits list.splits option.splits if_splits)

lemma classify_keeps_file:
  assumes "classify_document env stream_ctx event w = (r, w')" "files w q = Some b"
  shows "files w' q = Some b"
  using assms
  by (auto simp: classify_unfold filter_eq_Cons_iff
        split: prod.splits sum.splits list.splits option.splits if_splits)

lemma rules_tags: "map classifier_rule.type rules = [''10-q'', ''10-k'', ''8-k'']"
  by (simp add: rules_def)

lemma rules_descriptions:
  "prefix ''Annual report'' (classifier_rule.description (rules ! 0))"
  "suffix ''Typically labeled as Form 10-K or 10-K Annual Report.''
     (classifier_rule.description (rules ! 0))"
  "prefix ''Quarterly report'' (classifier_rule.description (rules ! 1))"
  "suffix ''Typically labeled as Form 10-Q or 10-Q Quarterly Report.''
     (classifier_rule.description (rules ! 1))"
  by (simp_all add: rules_def suffix_to_prefix)

lemma demo_classify:
  "fst (classify_document demo_env stream_ctx parsed0 world0) = Inr classified0"
  by (simp add: eval)

lemma demo_classify_pair:
  "classify_document demo_env stream_ctx parsed0 world0
   = (Inr classified0, snd (classify_document demo_env stream_ctx parsed0 world0))"
  using demo_classify by (simp add: prod_eq_iff)

text \<open>
  C4. Whenever the classify step reaches the classifier, it calls it exactly once, with
  the one fixed list \<open>rules\<close>; a step that returns an event has made that call. The list
  has three rules tagged \<open>10-q\<close>, \<open>10-k\<close>, \<open>8-k\<close> in this order, and the descriptions
  are crossed: the rule tagged \<open>10-q\<close> describes the annual report, Form 10-K, and the
  rule tagged \<open>10-k\<close> the quarterly report, Form 10-Q.
\<close>

theorem classify_rules_fixed:
  assumes "classify_document env stream_ctx event w = (r, w')"
  shows "((calls w' = calls w \<and> isl r) \<or> (\<exists>p. calls w' = calls w @ [AClassifyFilePath rules p]))
       \<and> map classifier_rule.type rules = [''10-q'', ''10-k'', ''8-k'']
       \<and> prefix ''Annual report'' (classifier_rule.description (rules ! 0))
       \<and> suffix ''Typically labeled as Form 10-K or 10-K Annual Report.''
            (classifier_rule.description (rules ! 0))
       \<and> prefix ''Quarterly report'' (classifier_rule.description (rules ! 1))
       \<and> suffix ''Typically labeled as Form 10-Q or 10-Q Quarterly Report.''
            (classifier_rule.description (rules ! 1))"
  using classify_effect[OF assms] rules_tags rules_descriptions by simp

theorem classify_rules_fixed_witness:
  "classify_document demo_env stream_ctx parsed0 world0
     = (Inr classified0, snd (classify_document demo_env stream_ctx parsed0 world0))
   \<and> calls (snd (classify_document demo_env stream_ctx parsed0 world0))
     = [AClassifyFilePath rules ''/tmp/tmpa1b2c3d4.md'']
   \<and> map classifier_rule.type rules = [''10-q'', ''10-k'', ''8-k'']"
proof -
  have c: "calls (snd (classify_document demo_env stream_ctx parsed0 world0))
           = [AClassifyFilePath rules ''/tmp/tmpa1b2c3d4.md'']"
    by (simp add: eval)
  from classify_rules_fixed[OF demo_classify_pair] c demo_classify_pair
  show ?thesis by simp
qed

text \<open>
  C9. The confidence of the classified event is the one the classifier returned for the
  first item, and 0 when the classifier returned none; the field of the event is a
  number, never absent.
\<close>

theorem classify_confidence:
  assumes "classify_document env stream_ctx event w = (Inr ev, w')"
  shows "\<exists>p cr item rest c.
           aclassify_file_path env (clock w) rules p (Some (markdown_content event)) = Inr cr
         \<and> items cr = item # rest \<and> result item = Some c
         \<and> confidence ev = (case classification.confidence c of None \<Rightarrow> 0 | Some x \<Rightarrow> x)"
proof -
  from assms obtain p cr item rest c where
    "aclassify_file_path env (clock w) rules p (Some (markdown_content event)) = Inr cr"
    "items cr = item # rest" "result item = Some c"
    "confidence ev = or_zero (classification.confidence c)"
    by (auto simp: classify_unfold
        split: prod.splits sum.splits list.splits option.splits if_splits)
  moreover have "or_zero x = (case x of None \<Rightarrow> 0 | Some y \<Rightarrow> y)" for x
    by (simp add: or_zero_def split: option.splits)
  ultimately show ?thesis by metis
qed

theorem classify_confidence_witness:
  "classify_document demo_env stream_ctx parsed0 world0
     = (Inr classified0, snd (classify_document demo_env stream_ctx parsed0 world0))
   \<and> confidence classified0 = 0
   \<and> (\<exists>p cr item rest c.
         aclassify_file_path demo_env (clock world0) rules p (Some (markdown_content parsed0)) = Inr cr
       \<and> items cr = item # rest \<and> result item = Some c
       \<and> confidence classified0 = (case classification.confidence c of None \<Rightarrow> 0 | Some x \<Rightarrow> x))"
proof -
  have "confidence classified0 = 0" by (simp add: classified0_def)
  with classify_confidence[OF demo_classify_pair] demo_classify_pair
  show ?thesis by simp
qed

text \<open>
  C8, where the code falls short of it. The step unlinks the scratch file in a
  \<^verbatim>\<open>finally\<close> block, so the file is gone when the classifier fails; but the file is
  created and written before the \<^verbatim>\<open>try\<close> that the \<^verbatim>\<open>finally\<close> belongs to. When the
  write raises (here: the disk is full), the step ends with that error and the scratch
  file, which did not exist before, is left on disk.
\<close>

theorem classify_scratch_left:
  "files world1 ''/tmp/tmpa1b2c3d4.md'' = None
   \<and> fst (classify_document classifier_down_env stream_ctx parsed0 world1)
       = Inl (CollaboratorError ''500'')
   \<and> files (snd (classify_document classifier_down_env stream_ctx parsed0 world1))
        ''/tmp/tmpa1b2c3d4.md'' = None
   \<and> fst (classify_document disk_full_env stream_ctx parsed0 world1)
       = Inl (OSError ''No space left on device'')
   \<and> files (snd (classify_document disk_full_env stream_ctx parsed0 world1))
        ''/tmp/tmpa1b2c3d4.md'' = Some []"
  by (simp add: eval)

section \<open>What the steps leave alone\<close>

lemma preservesI: "(\<And>w. P w \<Longrightarrow> P (snd (a w))) \<Longrightarrow> preserves P a"
  by (simp add: preserves_def)

lemma preservesD: "preserves P a \<Longrightarrow> P w \<Longrightarrow> a w = (r, w') \<Longrightarrow> P w'"
  by (auto simp: preserves_def)

lemma preserves_return: "preserves P (return x)"
  by (simp add: preserves_def return_def)

lemma preserves_raise: "preserves P (raise e)"
  by (simp add: preserves_def raise_def)

lemma preserves_bind:
  "preserves P a \<Longrightarrow> (\<And>x. preserves P (f x)) \<Longrightarrow> preserves P (bind a f)"
  unfolding preserves_def bind_def
  by (auto split: prod.splits sum.splits)

lemma preserves_try_except:
  "preserves P a \<Longrightarrow> (\<And>e. preserves P (h e)) \<Longrightarrow> preserves P (try_except a h)"
  unfolding preserves_def try_except_def
  by (auto split: prod.splits sum.splits)

lemma preserves_try_finally:
  "preserves P a \<Longrightarrow> preserves P c \<Longrightarrow> preserves P (try_finally a c)"
  unfolding preserves_def try_finally_def
  by (auto split: prod.splits sum.splits)

lemma preserves_if:
  "(c \<Longrightarrow> preserves P a) \<Longrightarrow> (\<not> c \<Longrightarrow> preserves P b) \<Longrightarrow> preserves P (if c then a else b)"
  by simp

lemma preserves_service:
  "(\<And>w c. P (w\<lparr>calls := c\<rparr>) = P w) \<Longrightarrow> preserves P (service c f)"
  by (simp add: preserves_def service_def)

lemma preserves_stream_ctx:
  "(\<And>w s. P (w\<lparr>stream := s\<rparr>) = P w) \<Longrightarrow> preserves P (stream_ctx t)"
  by (simp add: preserves_def stream_ctx_def)

lemma preserves_read_bytes: "preserves P (read_bytes p)"
  by (simp add: preserves_def read_bytes_def split: option.splits)

lemma preserves_validate:
  "preserves P (Form10KData_model_validate j)"
  "preserves P (Form10QData_model_validate j)"
  "preserves P (Form8KData_model_validate j)"
  by (auto simp: preserves_def Form10KData_model_validate_def Form10QData_model_validate_def
      Form8KData_model_validate_def return_def raise_def
      split: json.splits option.splits prod.splits)

lemma preserves_get_extract_agent_for:
  assumes "\<And>w c. P (w\<lparr>calls := c\<rparr>) = P w" "\<And>w a. P (w\<lparr>agents := a\<rparr>) = P w"
  shows "preserves P (get_extract_agent_for env f)"
  using assms
  by (auto simp: preserves_def get_extract_agent_for_def action_defs
      split: option.splits prod.splits sum.splits error.splits if_splits)

lemma preserves_gather:
  "(\<And>t. t \<in> set ts \<Longrightarrow> preserves P t) \<Longrightarrow> preserves P (gather ts)"
proof (induction ts)
  case Nil
  then show ?case by (simp add: preserves_def)
next
  case (Cons t ts)
  then have t: "preserves P t" and ts: "preserves P (gather ts)" by simp_all
  show ?case
  proof (rule preservesI)
    fix w assume "P w"
    obtain r w1 where a: "t w = (r, w1)" by (cases "t w")
    obtain rs w2 where b: "gather ts w1 = (rs, w2)" by (cases "gather ts w1")
    from preservesD[OF t \<open>P w\<close> a] have "P w1" .
    from preservesD[OF ts this b] have "P w2" .
    with a b show "P (snd (gather (t # ts) w))" by (simp split: sum.splits)
  qed
qed

lemma preserves_delete_item:
  "(\<And>w c. P (w\<lparr>calls := c\<rparr>) = P w) \<Longrightarrow> (\<And>w s. P (w\<lparr>store := s\<rparr>) = P w)
   \<Longrightarrow> preserves P (delete_item env i)"
  by (simp add: preserves_def delete_item_def split: option.splits)

lemma preserves_create_item:
  "(\<And>w c. P (w\<lparr>calls := c\<rparr>) = P w) \<Longrightarrow> (\<And>w s. P (w\<lparr>store := s\<rparr>) = P w)
   \<Longrightarrow> preserves P (create_item env d)"
  by (simp add: preserves_def create_item_def split: option.splits)

lemma preserves_untyped_search:
  "(\<And>w c. P (w\<lparr>calls := c\<rparr>) = P w) \<Longrightarrow> preserves P (untyped_search env h)"
  by (simp add: untyped_search_def preserves_service)

lemma preserves_stream_to_file:
  "(\<And>w c. P (w\<lparr>calls := c\<rparr>) = P w) \<Longrightarrow> (\<And>w f. P (w\<lparr>files := f\<rparr>) = P w)
   \<Longrightarrow> preserves P (stream_to_file env url p)"
  by (auto simp: preserves_def stream_to_file_def bind_def service_def
      split: prod.splits sum.splits option.splits)

lemmas preserves_intros =
  preserves_return preserves_raise preserves_bind preserves_try_except preserves_try_finally
  preserves_if preserves_service preserves_stream_ctx preserves_read_bytes preserves_validate
  preserves_get_extract_agent_for preserves_gather preserves_delete_item preserves_create_item
  preserves_untyped_search preserves_stream_to_file


lemma parse_keeps:
  assumes "\<And>w c. P (w\<lparr>calls := c\<rparr>) = P w" "\<And>w s. P (w\<lparr>stream := s\<rparr>) = P w"
  shows "preserves P (parse_document env stream_ctx event)"
  unfolding parse_document_def
  by (intro preserves_intros) (simp_all add: assms)

lemma extract_keeps:
  assumes "\<And>w c. P (w\<lparr>calls := c\<rparr>) = P w" "\<And>w s. P (w\<lparr>stream := s\<rparr>) = P w"
    "\<And>w a. P (w\<lparr>agents := a\<rparr>) = P w"
  shows "preserves P (extract_data_based_on_type env stream_ctx event)"
  unfolding extract_data_based_on_type_def Let_def get_extract_agent_for_10k_def
    get_extract_agent_for_10q_def get_extract_agent_for_8k_def
  by (intro preserves_intros) (simp_all add: assms)

lemma record_keeps:
  assumes "\<And>w c. P (w\<lparr>calls := c\<rparr>) = P w" "\<And>w s. P (w\<lparr>stream := s\<rparr>) = P w"
    "\<And>w s. P (w\<lparr>store := s\<rparr>) = P w"
  shows "preserves P (record_extracted_data env stream_ctx d)"
proof -
  have dedup: "preserves P
     (case file_hash d of
        None \<Rightarrow> return ()
      | Some h \<Rightarrow>
          if h = [] then return ()
          else bind (untyped_search env h) (\<lambda>existing_data.
                 if existing_data = [] then return ()
                 else gather (map (\<lambda>item. delete_item env (fst item)) existing_data)))"
    by (cases "file_hash d") (auto intro!: preserves_intros simp: assms)
  show ?thesis
    unfolding record_extracted_data_def
    by (intro preserves_intros dedup) (simp_all add: assms)
qed


section \<open>Retry and the run\<close>

lemma retry_origin:
  "retry n d operation w = (Inr x, w') \<Longrightarrow> \<exists>w0. operation w0 = (Inr x, w')"
proof (induction n d operation w rule: retry.induct)
  case (1 n d operation w)
  then show ?case by (auto split: prod.splits sum.splits)
qed auto

lemma retry_keeps:
  "preserves P operation \<Longrightarrow> (\<And>w. P w \<Longrightarrow> P (sleep d w)) \<Longrightarrow> P w
   \<Longrightarrow> P (snd (retry n d operation w))"
proof (induction n d operation w rule: retry.induct)
  case (1 n d operation w)
  obtain r w1 where a: "operation w = (r, w1)" by (cases "operation w")
  from preservesD[OF "1.prems"(1) "1.prems"(3) a] have p1: "P w1" .
  from "1.prems"(2)[OF p1] have p2: "P (sleep d w1)" .
  from "1.IH" "1.prems"(1,2) a p1 p2 show ?case by (cases r) auto
qed (simp_all add: preserves_def)

lemma preserves_retry:
  assumes "preserves P operation" "\<And>w. P w \<Longrightarrow> P (sleep d w)"
  shows "preserves P (retry n d operation)"
  by (rule preservesI) (rule retry_keeps[OF assms])

lemma step_next:
  "step env ctx ev w0 = (Inr ev', w') \<Longrightarrow> stage ev < 6 \<Longrightarrow> stage ev' = Suc (stage ev)"
  by (cases ev) (auto simp: bind_def return_def split: prod.splits sum.splits)

lemma run_step_next:
  assumes "run_step env ctx ev w = (Inr ev', w')" "stage ev < 6"
  shows "stage ev' = Suc (stage ev)"
proof -
  from assms(1) obtain w0 where "step env ctx ev w0 = (Inr ev', w')"
    unfolding run_step_def
    using retry_origin[of maximum_attempts delay "step env ctx ev" w ev' w'] by auto
  from step_next[OF this assms(2)] show ?thesis .
qed

lemma preserves_wrap: "preserves P a \<Longrightarrow> preserves P (bind a (\<lambda>r. return (K r)))"
  by (intro preserves_bind preserves_return)

lemma classify_keeps_files:
  "preserves (\<lambda>w::world. files w q = Some b) (classify_document env stream_ctx event)"
proof (rule preservesI)
  fix w :: world assume "files w q = Some b"
  with classify_keeps_file[of env "event" w "fst (classify_document env stream_ctx event w)"
      "snd (classify_document env stream_ctx event w)" q b]
  show "files (snd (classify_document env stream_ctx event w)) q = Some b" by simp
qed


lemma step_keeps_files:
  "2 \<le> stage ev \<Longrightarrow> preserves (\<lambda>w::world. files w q = Some b) (step env stream_ctx ev)"
  by (cases ev)
     (auto intro!: preserves_wrap parse_keeps classify_keeps_files extract_keeps record_keeps
        preserves_return)


lemma run_step_keeps_files:
  "2 \<le> stage ev \<Longrightarrow> preserves (\<lambda>w::world. files w q = Some b) (run_step env stream_ctx ev)"
  unfolding run_step_def by (intro preserves_retry step_keeps_files) (simp_all add: sleep_def)


lemma run_from_unfold:
  "stage ev < 6 \<Longrightarrow>
   run_from env ctx ev w =
     (case run_step env ctx ev w of
        (Inl e, w') \<Rightarrow> (Failed e, w')
      | (Inr ev', w') \<Rightarrow> run_from env ctx ev' w')"
  by (cases ev) simp_all

lemma run_from_files:
  "2 \<le> stage ev \<Longrightarrow> files w q = Some b \<Longrightarrow> files (snd (run_from env stream_ctx ev w)) q = Some b"
proof (induction "6 - stage ev" arbitrary: ev w)
  case 0
  then have "\<exists>r. ev = StopEvent r" by (cases ev) auto
  with 0 show ?case by auto
next
  case (Suc k)
  then have lt: "stage ev < 6" by simp
  obtain r w1 where a: "run_step env stream_ctx ev w = (r, w1)"
    by (cases "run_step env stream_ctx ev w")
  from preservesD[OF run_step_keeps_files[OF Suc.prems(1)] Suc.prems(2) a]
  have f: "files w1 q = Some b" .
  show ?case
  proof (cases r)
    case (Inl e)
    with a f lt show ?thesis by (simp add: run_from_unfold)
  next
    case (Inr ev')
    with a have s: "stage ev' = Suc (stage ev)" using run_step_next lt by blast
    with Suc f have "files (snd (run_from env stream_ctx ev' w1)) q = Some b" by simp
    with a lt Inr show ?thesis by (simp add: run_from_unfold)
  qed
qed

lemma download_creates:
  "download_file env stream_ctx e w = (Inr d, w') \<Longrightarrow> files w' (file_path d) \<noteq> None"
  by (auto simp: download_file_def action_defs stream_ctx_def stream_to_file_def Let_def
      split: prod.splits sum.splits option.splits)

lemma run_step_download:
  assumes "run_step env stream_ctx (DownloadFileEvent e) w = (Inr ev, w')"
  shows "\<exists>d. ev = FileDownloadedEvent d \<and> files w' (file_path d) \<noteq> None"
proof -
  from assms obtain w0 where "step env stream_ctx (DownloadFileEvent e) w0 = (Inr ev, w')"
    unfolding run_step_def
    using retry_origin[of maximum_attempts delay "step env stream_ctx (DownloadFileEvent e)" w ev w']
    by auto
  then show ?thesis
    by (auto simp: bind_def return_def dest: download_creates split: prod.splits sum.splits)
qed

lemma run_skips_run_file:
  "run env ctx fid w = run_from env ctx (DownloadFileEvent \<lparr>file_id = fid\<rparr>) w"
  by (simp add: run_def run_step_def maximum_attempts_def numeral_3_eq_3 run_file_def
      bind_def return_def)




section \<open>The extract step\<close>


lemma demo_extract:
  "fst (extract_data_based_on_type demo_env stream_ctx classified0 world1) = Inr extracted1"
  by (simp add: eval)

text \<open>
  C5. Every record the extract step returns has exactly one payload slot filled, the one
  of its document type, and the other two are \<open>None\<close>; the document type is one of the
  three the step knows. This holds for any context the step is given.
\<close>

theorem extract_one_slot:
  assumes "extract_data_based_on_type env ctx event w = (Inr d, w')"
  shows "(document_type event = ''10-k'' \<and> my_schema.document_type (data d) = Some ''10-k''
            \<and> form_10k_data (data d) \<noteq> None \<and> form_10q_data (data d) = None
            \<and> form_8k_data (data d) = None)
       \<or> (document_type event = ''10-q'' \<and> my_schema.document_type (data d) = Some ''10-q''
            \<and> form_10k_data (data d) = None \<and> form_10q_data (data d) \<noteq> None
            \<and> form_8k_data (data d) = None)
       \<or> (document_type event = ''8-k'' \<and> my_schema.document_type (data d) = Some ''8-k''
            \<and> form_10k_data (data d) = None \<and> form_10q_data (data d) = None
            \<and> form_8k_data (data d) \<noteq> None)"
  using assms
  by (auto simp: extract_data_based_on_type_def bind_def return_def raise_def try_except_def Let_def
      split: prod.splits sum.splits if_splits)

theorem extract_one_slot_witness:
  "extract_data_based_on_type demo_env stream_ctx classified0 world1
     = (Inr extracted1, snd (extract_data_based_on_type demo_env stream_ctx classified0 world1))
   \<and> my_schema.document_type (data extracted1) = Some ''10-k''
   \<and> form_10k_data (data extracted1) \<noteq> None
   \<and> form_10q_data (data extracted1) = None
   \<and> form_8k_data (data extracted1) = None"
proof -
  have h: "extract_data_based_on_type demo_env stream_ctx classified0 world1
     = (Inr extracted1, snd (extract_data_based_on_type demo_env stream_ctx classified0 world1))"
    using demo_extract by (simp add: prod_eq_iff)
  from extract_one_slot[OF h] h show ?thesis
    by (simp add: classified0_def)
qed




section \<open>The downloaded file\<close>

text \<open>
  C7, as the code has it. The workflow contains no statement that removes the downloaded
  file. Once the download step has succeeded, the file is at its path, and it is still
  there, with the same content, at the end of the run, completed or failed.
\<close>

theorem downloaded_file_stays:
  assumes "run_step env stream_ctx (DownloadFileEvent \<lparr>file_id = fid\<rparr>) w
             = (Inr (FileDownloadedEvent d), w1)"
  shows "files w1 (file_path d) \<noteq> None
       \<and> files (snd (run env stream_ctx fid w)) (file_path d) = files w1 (file_path d)"
proof -
  from run_step_download[OF assms] obtain b where b: "files w1 (file_path d) = Some b" by auto
  have "run env stream_ctx fid w = run_from env stream_ctx (FileDownloadedEvent d) w1"
    using assms by (simp add: run_skips_run_file)
  moreover have "files (snd (run_from env stream_ctx (FileDownloadedEvent d) w1)) (file_path d)
                 = Some b"
    by (rule run_from_files[OF _ b]) simp
  ultimately show ?thesis using b by simp
qed

theorem downloaded_file_stays_witness:
  "run_step demo_env stream_ctx (DownloadFileEvent \<lparr>file_id = ''f1''\<rparr>) world0
     = (Inr (FileDownloadedEvent downloaded0),
        snd (run_step demo_env stream_ctx (DownloadFileEvent \<lparr>file_id = ''f1''\<rparr>) world0))
   \<and> files (snd (run demo_env stream_ctx ''f1'' world0)) (file_path downloaded0) \<noteq> None"
proof -
  have h: "run_step demo_env stream_ctx (DownloadFileEvent \<lparr>file_id = ''f1''\<rparr>) world0
     = (Inr (FileDownloadedEvent downloaded0),
        snd (run_step demo_env stream_ctx (DownloadFileEvent \<lparr>file_id = ''f1''\<rparr>) world0))"
    by (simp add: prod_eq_iff eval)
  from downloaded_file_stays[OF h] h show ?thesis by simp
qed

theorem downloaded_file_removed_counterexample:
  "fst (run demo_env stream_ctx ''f1'' world0) = Completed ''item-''
   \<and> files (snd (run demo_env stream_ctx ''f1'' world0)) ''/tmp/report.pdf'' = Some ''%PDF-1.7''
   \<and> fst (run full_env stream_ctx ''f1'' world0) = Failed (CollaboratorError ''507'')
   \<and> files (snd (run full_env stream_ctx ''f1'' world0)) ''/tmp/report.pdf'' = Some ''%PDF-1.7''"
  by (simp add: eval)

section \<open>The record step\<close>

lemma with_hash_removed:
  "with_hash h (filter (\<lambda>item. fst item \<notin> fst ` set (with_hash h st)) st) = []"
  by (auto simp: with_hash_def filter_empty_conv image_iff)

lemma gather_deletes:
  "gather (map (\<lambda>item. delete_item env (fst item)) its) w = (Inr u, w') \<Longrightarrow>
   store w' = filter (\<lambda>item. fst item \<notin> fst ` set its) (store w)
   \<and> calls w' = calls w @ map (\<lambda>item. DeleteItem (fst item)) its
   \<and> clock w' = clock w"
proof (induction its arbitrary: w)
  case Nil
  then show ?case by simp
next
  case (Cons it its)
  obtain r w1 where a: "delete_item env (fst it) w = (r, w1)"
    by (cases "delete_item env (fst it) w")
  obtain rs w2 where b: "gather (map (\<lambda>item. delete_item env (fst item)) its) w1 = (rs, w2)"
    by (cases "gather (map (\<lambda>item. delete_item env (fst item)) its) w1")
  from Cons.prems a b have r: "r = Inr ()" and rs: "rs = Inr u" and w2: "w2 = w'"
    by (auto split: sum.splits)
  from a r have w1: "store w1 = filter (\<lambda>item. fst item \<noteq> fst it) (store w)"
    "calls w1 = calls w @ [DeleteItem (fst it)]" "clock w1 = clock w"
    by (auto simp: delete_item_def split: option.splits)
  from Cons.IH[OF b[unfolded rs w2]] w1 show ?case
    by (auto intro: filter_cong)
qed

lemma with_hash_none:
  "with_hash h st = [] \<Longrightarrow> filter (\<lambda>item. fst item \<notin> fst ` set (with_hash h st)) st = st"
  by simp

lemma record_success:
  assumes "record_extracted_data env stream_ctx d w = (Inr rid, w')"
    and "file_hash d = Some h" "h \<noteq> []"
  shows "calls w' = calls w @ UntypedSearch h
           # map (\<lambda>item. DeleteItem (fst item)) (with_hash h (store w)) @ [CreateItem d]
       \<and> store w' = filter (\<lambda>item. fst item \<notin> fst ` set (with_hash h (store w))) (store w)
                     @ [(rid, d)]"
  using assms
  by (auto simp: record_extracted_data_def action_defs stream_ctx_def untyped_search_def
      create_item_def with_hash_def[symmetric] with_hash_none
      split: prod.splits sum.splits option.splits if_splits
      dest!: gather_deletes)

lemma run_step_record:
  assumes "run_step env stream_ctx (ExtractedEvent d) w = (Inr ev', w')"
  shows "\<exists>rid w0. ev' = StopEvent rid \<and> record_extracted_data env stream_ctx d w0 = (Inr rid, w')"
proof -
  from assms obtain w0 where "step env stream_ctx (ExtractedEvent d) w0 = (Inr ev', w')"
    unfolding run_step_def
    using retry_origin[of maximum_attempts delay "step env stream_ctx (ExtractedEvent d)" w ev' w']
    by auto
  then show ?thesis
    by (auto simp: bind_def return_def split: prod.splits sum.splits)
qed

text \<open>
  C1. When the record step succeeds on a record with a non-empty fingerprint \<open>h\<close>, the
  attempt that succeeded made these storage calls and no other, in this order: one
  search for \<open>h\<close>, one delete for each item the search found, one create of the new
  record. After it the collection holds exactly one item with fingerprint \<open>h\<close>, the new
  record under the identifier the run returns. The collection before the step is
  arbitrary, so it may hold items of earlier runs of the same bytes under other file
  identifiers.
\<close>

theorem record_dedup:
  assumes "run_step env stream_ctx (ExtractedEvent d) w = (Inr ev', w')"
    and "file_hash d = Some h" "h \<noteq> []"
  shows "\<exists>rid w0. ev' = StopEvent rid
          \<and> run_from env stream_ctx (ExtractedEvent d) w = (Completed rid, w')
          \<and> record_extracted_data env stream_ctx d w0 = (Inr rid, w')
          \<and> calls w' = calls w0 @ UntypedSearch h
               # map (\<lambda>item. DeleteItem (fst item)) (with_hash h (store w0)) @ [CreateItem d]
          \<and> with_hash h (store w') = [(rid, d)]"
proof -
  from run_step_record[OF assms(1)] obtain rid w0 where
    ev: "ev' = StopEvent rid" and r: "record_extracted_data env stream_ctx d w0 = (Inr rid, w')"
    by blast
  from record_success[OF r assms(2,3)] have
    c: "calls w' = calls w0 @ UntypedSearch h
          # map (\<lambda>item. DeleteItem (fst item)) (with_hash h (store w0)) @ [CreateItem d]"
    and s: "store w' = filter (\<lambda>item. fst item \<notin> fst ` set (with_hash h (store w0))) (store w0)
                     @ [(rid, d)]"
    by simp_all
  have "with_hash h (store w') =
        with_hash h (filter (\<lambda>item. fst item \<notin> fst ` set (with_hash h (store w0))) (store w0))
        @ with_hash h [(rid, d)]"
    unfolding s by (simp add: with_hash_def)
  then have one: "with_hash h (store w') = [(rid, d)]"
    using assms(2) by (simp add: with_hash_removed) (simp add: with_hash_def)
  have "run_from env stream_ctx (ExtractedEvent d) w = (Completed rid, w')"
    using assms(1) ev by simp
  with ev r c one show ?thesis by blast
qed

theorem record_dedup_witness:
  "run_step demo_env stream_ctx (ExtractedEvent extracted2) world1
     = (Inr (StopEvent ''item-''),
        snd (run_step demo_env stream_ctx (ExtractedEvent extracted2) world1))
   \<and> with_hash ''sha256:%PDF-1.7'' (store world1) = [(''item-'', extracted1)]
   \<and> with_hash ''sha256:%PDF-1.7''
        (store (snd (run_step demo_env stream_ctx (ExtractedEvent extracted2) world1)))
     = [(''item-'', extracted2)]
   \<and> store (snd (run demo_env stream_ctx ''f2'' (snd (run demo_env stream_ctx ''f1'' world0))))
     = [(''item-'', extracted2)]"
proof -
  have h: "run_step demo_env stream_ctx (ExtractedEvent extracted2) world1
     = (Inr (StopEvent ''item-''),
        snd (run_step demo_env stream_ctx (ExtractedEvent extracted2) world1))"
    by (simp add: prod_eq_iff eval)
  have f: "file_hash extracted2 = Some ''sha256:%PDF-1.7''" by (simp add: extracted2_def)
  have n: "''sha256:%PDF-1.7'' \<noteq> []" by simp
  have b: "with_hash ''sha256:%PDF-1.7'' (store world1) = [(''item-'', extracted1)]"
    by (simp add: with_hash_def demo_defs)
  have two: "store (snd (run demo_env stream_ctx ''f2'' (snd (run demo_env stream_ctx ''f1'' world0))))
     = [(''item-'', extracted2)]"
    by (simp add: eval)
  from record_dedup[OF h f n] h b two show ?thesis by auto
qed

text \<open>
  C6. The record step is not atomic. In this execution the collection holds one item with
  the fingerprint of the new record; the search and the delete succeed and the create
  raises. The step raises too, and leaves the collection without any item of that
  fingerprint: nothing puts the deleted item back. The three attempts of the retried step
  end the same way.
\<close>

theorem record_not_atomic:
  "length (with_hash ''sha256:%PDF-1.7'' (store world1)) = 1
   \<and> file_hash extracted2 = Some ''sha256:%PDF-1.7''
   \<and> fst (record_extracted_data full_env stream_ctx extracted2 world1)
       = Inl (CollaboratorError ''507'')
   \<and> calls (snd (record_extracted_data full_env stream_ctx extracted2 world1))
       = [UntypedSearch ''sha256:%PDF-1.7'', DeleteItem ''item-'', CreateItem extracted2]
   \<and> with_hash ''sha256:%PDF-1.7''
        (store (snd (record_extracted_data full_env stream_ctx extracted2 world1))) = []
   \<and> fst (run_from full_env stream_ctx (ExtractedEvent extracted2) world1)
       = Failed (CollaboratorError ''507'')
   \<and> with_hash ''sha256:%PDF-1.7''
        (store (snd (run_from full_env stream_ctx (ExtractedEvent extracted2) world1))) = []"
  by (simp add: eval with_hash_def)

section \<open>Progress events and the outcome\<close>

lemma erase_eq_iff:
  "erase w1 = erase w2 \<longleftrightarrow>
     clock w1 = clock w2 \<and> files w1 = files w2 \<and> store w1 = store w2
     \<and> calls w1 = calls w2 \<and> agents w1 = agents w2"
  by (cases w1; cases w2) (simp add: erase_def)

lemma agreeI:
  "(\<And>w1 w2. erase w1 = erase w2 \<Longrightarrow>
      fst (a w1) = fst (b w2) \<and> erase (snd (a w1)) = erase (snd (b w2)))
   \<Longrightarrow> agree a b"
  by (simp add: agree_def)

lemma agreeD:
  assumes "agree a b" "erase w1 = erase w2" "a w1 = (r1, v1)" "b w2 = (r2, v2)"
  shows "r1 = r2 \<and> erase v1 = erase v2"
proof -
  from assms(1,2) have "fst (a w1) = fst (b w2) \<and> erase (snd (a w1)) = erase (snd (b w2))"
    unfolding agree_def by blast
  with assms(3,4) show ?thesis by simp
qed

lemma erase_eq_update: "erase w1 = erase w2 \<Longrightarrow> w1 = w2\<lparr>stream := stream w1\<rparr>"
  by (cases w1; cases w2) (simp add: erase_def)

lemma agree_selfI:
  assumes "\<And>w s. a (w\<lparr>stream := s\<rparr>) = (fst (a w), (snd (a w))\<lparr>stream := s\<rparr>)"
  shows "agree a a"
proof (rule agreeI)
  fix w1 w2 assume "erase w1 = erase w2"
  then have "w1 = w2\<lparr>stream := stream w1\<rparr>" by (rule erase_eq_update)
  then have "a w1 = (fst (a w2), (snd (a w2))\<lparr>stream := stream w1\<rparr>)"
    using assms[where w = w2 and s = "stream w1"] by simp
  then show "fst (a w1) = fst (a w2) \<and> erase (snd (a w1)) = erase (snd (a w2))"
    by (simp add: erase_def)
qed

lemma agree_return: "agree (return x) (return x)"
  by (simp add: agree_def return_def)

lemma agree_raise: "agree (raise e) (raise e)"
  by (simp add: agree_def raise_def)

lemma agree_bind:
  assumes "agree a b" "\<And>x. agree (f x) (g x)"
  shows "agree (bind a f) (bind b g)"
proof (rule agreeI)
  fix w1 w2 assume e: "erase w1 = erase w2"
  obtain r1 v1 where a: "a w1 = (r1, v1)" by (cases "a w1")
  obtain r2 v2 where b: "b w2 = (r2, v2)" by (cases "b w2")
  from agreeD[OF assms(1) e a b] have r: "r2 = r1" and v: "erase v1 = erase v2" by simp_all
  show "fst (bind a f w1) = fst (bind b g w2)
        \<and> erase (snd (bind a f w1)) = erase (snd (bind b g w2))"
  proof (cases r1)
    case (Inl err)
    from a b v show ?thesis unfolding r Inl by (simp add: bind_def)
  next
    case (Inr x)
    obtain q1 u1 where c: "f x v1 = (q1, u1)" by (cases "f x v1")
    obtain q2 u2 where c': "g x v2 = (q2, u2)" by (cases "g x v2")
    from agreeD[OF assms(2) v c c'] have "q1 = q2" "erase u1 = erase u2" by simp_all
    with a b c c' show ?thesis unfolding r Inr by (simp add: bind_def)
  qed
qed

lemma agree_try_except:
  assumes "agree a b" "\<And>e. agree (f e) (g e)"
  shows "agree (try_except a f) (try_except b g)"
proof (rule agreeI)
  fix w1 w2 assume e: "erase w1 = erase w2"
  obtain r1 v1 where a: "a w1 = (r1, v1)" by (cases "a w1")
  obtain r2 v2 where b: "b w2 = (r2, v2)" by (cases "b w2")
  from agreeD[OF assms(1) e a b] have r: "r2 = r1" and v: "erase v1 = erase v2" by simp_all
  show "fst (try_except a f w1) = fst (try_except b g w2)
        \<and> erase (snd (try_except a f w1)) = erase (snd (try_except b g w2))"
  proof (cases r1)
    case (Inl err)
    obtain q1 u1 where c: "f err v1 = (q1, u1)" by (cases "f err v1")
    obtain q2 u2 where c': "g err v2 = (q2, u2)" by (cases "g err v2")
    from agreeD[OF assms(2) v c c'] have "q1 = q2" "erase u1 = erase u2" by simp_all
    with a b c c' show ?thesis unfolding r Inl by (simp add: try_except_def)
  next
    case (Inr x)
    from a b v show ?thesis unfolding r Inr by (simp add: try_except_def)
  qed
qed

lemma agree_try_finally:
  assumes "agree a b" "agree c c'"
  shows "agree (try_finally a c) (try_finally b c')"
proof (rule agreeI)
  fix w1 w2 assume e: "erase w1 = erase w2"
  obtain r1 v1 where a: "a w1 = (r1, v1)" by (cases "a w1")
  obtain r2 v2 where b: "b w2 = (r2, v2)" by (cases "b w2")
  from agreeD[OF assms(1) e a b] have r: "r2 = r1" and v: "erase v1 = erase v2" by simp_all
  obtain q1 u1 where c: "c v1 = (q1, u1)" by (cases "c v1")
  obtain q2 u2 where c': "c' v2 = (q2, u2)" by (cases "c' v2")
  from agreeD[OF assms(2) v c c'] have q: "q2 = q1" and u: "erase u1 = erase u2" by simp_all
  from a b c c' u show "fst (try_finally a c w1) = fst (try_finally b c' w2)
        \<and> erase (snd (try_finally a c w1)) = erase (snd (try_finally b c' w2))"
    unfolding r q by (cases q1) (simp_all add: try_finally_def)
qed

lemma agree_if:
  "(c \<Longrightarrow> agree a b) \<Longrightarrow> (\<not> c \<Longrightarrow> agree a' b') \<Longrightarrow>
   agree (if c then a else a') (if c then b else b')"
  by simp

lemma agree_ctx: "agree (stream_ctx t) (silent_ctx t)"
  by (rule agreeI) (simp add: stream_ctx_def silent_ctx_def erase_eq_iff)

lemma agree_service:
  assumes "\<And>w s. f (w\<lparr>stream := s\<rparr>) = f w"
  shows "agree (service c f) (service c f)"
  by (rule agree_selfI) (simp add: service_def assms)

lemma agree_read_bytes: "agree (read_bytes p) (read_bytes p)"
  by (rule agree_selfI) (simp add: read_bytes_def split: option.splits)

lemma agree_unlink: "agree (unlink p) (unlink p)"
  by (rule agree_selfI) (simp add: unlink_def split: option.splits)

lemma agree_NamedTemporaryFile: "agree (NamedTemporaryFile env sfx) (NamedTemporaryFile env sfx)"
  by (rule agree_selfI) (simp add: NamedTemporaryFile_def split: list.splits)

lemma agree_write_and_close:
  "agree (write_and_close env p content) (write_and_close env p content)"
  by (rule agree_selfI) (simp add: write_and_close_def split: option.splits prod.splits)

lemma agree_stream_to_file: "agree (stream_to_file env url p) (stream_to_file env url p)"
  by (rule agree_selfI)
     (simp add: stream_to_file_def bind_def service_def split: prod.splits sum.splits option.splits)

lemma agree_first_result: "agree (first_result r) (first_result r)"
  by (simp add: first_result_def agree_return agree_raise split: list.splits option.splits)

lemma agree_validated_FileClassifiedEvent:
  "agree (validated_FileClassifiedEvent event dt c) (validated_FileClassifiedEvent event dt c)"
  by (simp add: validated_FileClassifiedEvent_def agree_return agree_raise split: option.splits)

lemma agree_validate_10k: "agree (Form10KData_model_validate j) (Form10KData_model_validate j)"
  by (rule agree_selfI)
     (simp add: Form10KData_model_validate_def return_def raise_def
        split: json.splits option.splits prod.splits)

lemma agree_validate_10q: "agree (Form10QData_model_validate j) (Form10QData_model_validate j)"
  by (rule agree_selfI)
     (simp add: Form10QData_model_validate_def return_def raise_def
        split: json.splits option.splits prod.splits)

lemma agree_validate_8k: "agree (Form8KData_model_validate j) (Form8KData_model_validate j)"
  by (rule agree_selfI)
     (simp add: Form8KData_model_validate_def return_def raise_def
        split: json.splits option.splits prod.splits)

lemmas agree_validate = agree_validate_10k agree_validate_10q agree_validate_8k

lemma agree_get_extract_agent_for:
  "agree (get_extract_agent_for env f) (get_extract_agent_for env f)"
  by (rule agree_selfI)
     (auto simp: get_extract_agent_for_def action_defs
      split: option.splits prod.splits sum.splits error.splits if_splits)

lemma agree_untyped_search: "agree (untyped_search env h) (untyped_search env h)"
  unfolding untyped_search_def by (rule agree_service) (simp split: option.splits)

lemma agree_delete_item: "agree (delete_item env i) (delete_item env i)"
  by (rule agree_selfI) (simp add: delete_item_def split: option.splits)

lemma agree_create_item: "agree (create_item env d) (create_item env d)"
  by (rule agree_selfI) (simp add: create_item_def split: option.splits)

lemma agree_gather:
  "(\<And>t. t \<in> set ts \<Longrightarrow> agree t t) \<Longrightarrow> agree (gather ts) (gather ts)"
proof (induction ts)
  case Nil
  then show ?case by (simp add: agree_def)
next
  case (Cons t ts)
  then have t: "agree t t" and ts: "agree (gather ts) (gather ts)" by simp_all
  show ?case
  proof (rule agreeI)
    fix w1 w2 assume e: "erase w1 = erase w2"
    obtain r1 v1 where a: "t w1 = (r1, v1)" by (cases "t w1")
    obtain r2 v2 where b: "t w2 = (r2, v2)" by (cases "t w2")
    from agreeD[OF t e a b] have r: "r2 = r1" and v: "erase v1 = erase v2" by simp_all
    obtain q1 u1 where c: "gather ts v1 = (q1, u1)" by (cases "gather ts v1")
    obtain q2 u2 where c': "gather ts v2 = (q2, u2)" by (cases "gather ts v2")
    from agreeD[OF ts v c c'] have q: "q2 = q1" and u: "erase u1 = erase u2" by simp_all
    from a b c c' u show "fst (gather (t # ts) w1) = fst (gather (t # ts) w2)
        \<and> erase (snd (gather (t # ts) w1)) = erase (snd (gather (t # ts) w2))"
      unfolding r q by (cases r1) simp_all
  qed
qed

lemmas agree_intros =
  agree_return agree_raise agree_bind agree_try_except agree_try_finally agree_if agree_ctx
  agree_service agree_read_bytes agree_unlink agree_NamedTemporaryFile agree_write_and_close
  agree_stream_to_file
  agree_first_result agree_validated_FileClassifiedEvent agree_validate agree_get_extract_agent_for
  agree_untyped_search agree_delete_item agree_create_item agree_gather

lemma agree_download:
  "agree (download_file env stream_ctx e) (download_file env silent_ctx e)"
  unfolding download_file_def Let_def
  by (intro agree_intros) simp_all

lemma agree_parse:
  "agree (parse_document env stream_ctx e) (parse_document env silent_ctx e)"
  unfolding parse_document_def
  by (intro agree_intros) simp_all

lemma agree_classify:
  "agree (classify_document env stream_ctx e) (classify_document env silent_ctx e)"
  unfolding classify_document_def Let_def
  by (intro agree_intros) simp_all

lemma agree_extract:
  "agree (extract_data_based_on_type env stream_ctx e) (extract_data_based_on_type env silent_ctx e)"
  unfolding extract_data_based_on_type_def Let_def get_extract_agent_for_10k_def
    get_extract_agent_for_10q_def get_extract_agent_for_8k_def
  by (intro agree_intros) simp_all

lemma agree_record:
  "agree (record_extracted_data env stream_ctx d) (record_extracted_data env silent_ctx d)"
proof -
  have dedup: "agree
     (case file_hash d of
        None \<Rightarrow> return ()
      | Some h \<Rightarrow>
          if h = [] then return ()
          else bind (untyped_search env h) (\<lambda>existing_data.
                 if existing_data = [] then return ()
                 else gather (map (\<lambda>item. delete_item env (fst item)) existing_data)))
     (case file_hash d of
        None \<Rightarrow> return ()
      | Some h \<Rightarrow>
          if h = [] then return ()
          else bind (untyped_search env h) (\<lambda>existing_data.
                 if existing_data = [] then return ()
                 else gather (map (\<lambda>item. delete_item env (fst item)) existing_data)))"
    by (cases "file_hash d") (auto intro!: agree_intros)
  show ?thesis
    unfolding record_extracted_data_def
    by (intro agree_intros dedup)
qed

lemma agree_step: "agree (step env stream_ctx ev) (step env silent_ctx ev)"
  by (cases ev)
     (auto intro!: agree_bind agree_return agree_download agree_parse agree_classify
        agree_extract agree_record simp: run_file_def)


lemma retry_agrees:
  assumes "agree a b"
  shows "erase w1 = erase w2 \<Longrightarrow>
         fst (retry n d a w1) = fst (retry n d b w2)
         \<and> erase (snd (retry n d a w1)) = erase (snd (retry n d b w2))"
proof (induction n arbitrary: w1 w2)
  case 0
  with assms show ?case by (simp add: agree_def)
next
  case (Suc n)
  show ?case
  proof (cases n)
    case 0
    with Suc.prems assms show ?thesis by (simp add: agree_def)
  next
    case (Suc m)
    obtain r1 v1 where a: "a w1 = (r1, v1)" by (cases "a w1")
    obtain r2 v2 where b: "b w2 = (r2, v2)" by (cases "b w2")
    from agreeD[OF assms Suc.prems a b] have r: "r2 = r1" and v: "erase v1 = erase v2"
      by simp_all
    from v have "erase (sleep d v1) = erase (sleep d v2)"
      by (simp add: erase_eq_iff sleep_def)
    from Suc.IH[OF this] a b v show ?thesis
      unfolding r \<open>n = Suc m\<close> by (cases r1) simp_all
  qed
qed

lemma agree_retry: "agree a b \<Longrightarrow> agree (retry n d a) (retry n d b)"
  by (rule agreeI) (rule retry_agrees)

lemma agree_run_step: "agree (run_step env stream_ctx ev) (run_step env silent_ctx ev)"
  unfolding run_step_def by (rule agree_retry) (rule agree_step)

lemma run_from_agrees:
  "erase w1 = erase w2 \<Longrightarrow>
   fst (run_from env stream_ctx ev w1) = fst (run_from env silent_ctx ev w2)
   \<and> erase (snd (run_from env stream_ctx ev w1)) = erase (snd (run_from env silent_ctx ev w2))"
proof (induction "6 - stage ev" arbitrary: ev w1 w2)
  case 0
  then have "\<exists>r. ev = StopEvent r" by (cases ev) auto
  with 0 show ?case by auto
next
  case (Suc k)
  then have lt: "stage ev < 6" by simp
  obtain r1 v1 where a: "run_step env stream_ctx ev w1 = (r1, v1)"
    by (cases "run_step env stream_ctx ev w1")
  obtain r2 v2 where b: "run_step env silent_ctx ev w2 = (r2, v2)"
    by (cases "run_step env silent_ctx ev w2")
  from agreeD[OF agree_run_step Suc.prems a b] have r: "r2 = r1" and v: "erase v1 = erase v2"
    by simp_all
  show ?case
  proof (cases r1)
    case (Inl e)
    from a b v lt show ?thesis unfolding r Inl by (simp add: run_from_unfold)
  next
    case (Inr ev')
    from a Inr have "stage ev' = Suc (stage ev)" using run_step_next lt by blast
    with Suc.hyps have "k = 6 - stage ev'" by simp
    from Suc.hyps(1)[OF this v] a b lt show ?thesis
      unfolding r Inr by (simp add: run_from_unfold)
  qed
qed

lemma download_failing: "fst (download_file env (failing_ctx e) ev w) = Inl e"
  by (simp add: download_file_def action_defs failing_ctx_def Let_def
      split: prod.splits sum.splits)

lemma retry_always_fails:
  assumes "\<And>w. fst (operation w) = Inl e"
  shows "fst (retry n d operation w) = Inl e"
proof (induction n arbitrary: w)
  case 0
  show ?case by (simp add: assms)
next
  case (Suc n)
  show ?case
  proof (cases n)
    case 0
    then show ?thesis by (simp add: assms)
  next
    case (Suc m)
    obtain r v where a: "operation w = (r, v)" by (cases "operation w")
    with assms[of w] have "r = Inl e" by simp
    with a Suc.IH[of "sleep d v"] show ?thesis unfolding \<open>n = Suc m\<close> by simp
  qed
qed

text \<open>
  C10, as the code has it. With the workflow's own context, which appends every event to
  the stream and never raises, taking all progress emissions out changes nothing but the
  stream: the outcome of the run (the record identifier or the terminal error), the
  collection, the local files, the service calls and the time waited are the same, for
  every environment, file identifier and initial world. An emitter failure is not
  swallowed: with a context whose \<^verbatim>\<open>write_event_to_stream\<close> raises \<open>e\<close>, every run ends
  as failed with \<open>e\<close>.
\<close>

theorem emissions_only_observe:
  "fst (run env silent_ctx fid w) = fst (run env stream_ctx fid w)
   \<and> store (snd (run env silent_ctx fid w)) = store (snd (run env stream_ctx fid w))
   \<and> files (snd (run env silent_ctx fid w)) = files (snd (run env stream_ctx fid w))
   \<and> calls (snd (run env silent_ctx fid w)) = calls (snd (run env stream_ctx fid w))
   \<and> clock (snd (run env silent_ctx fid w)) = clock (snd (run env stream_ctx fid w))
   \<and> fst (run env (failing_ctx e) fid w) = Failed e"
proof -
  from run_from_agrees[OF refl, of env "FileEvent \<lparr>file_id = fid\<rparr>" w]
  have "fst (run env stream_ctx fid w) = fst (run env silent_ctx fid w)"
    and "erase (snd (run env stream_ctx fid w)) = erase (snd (run env silent_ctx fid w))"
    by (simp_all add: run_def)
  then have same: "fst (run env silent_ctx fid w) = fst (run env stream_ctx fid w)
     \<and> store (snd (run env silent_ctx fid w)) = store (snd (run env stream_ctx fid w))
     \<and> files (snd (run env silent_ctx fid w)) = files (snd (run env stream_ctx fid w))
     \<and> calls (snd (run env silent_ctx fid w)) = calls (snd (run env stream_ctx fid w))
     \<and> clock (snd (run env silent_ctx fid w)) = clock (snd (run env stream_ctx fid w))"
    by (simp add: erase_eq_iff)
  have "fst (step env (failing_ctx e) (DownloadFileEvent \<lparr>file_id = fid\<rparr>) v) = Inl e" for v
  proof -
    obtain r v' where d: "download_file env (failing_ctx e) \<lparr>file_id = fid\<rparr> v = (r, v')"
      by (cases "download_file env (failing_ctx e) \<lparr>file_id = fid\<rparr> v")
    with download_failing[of env e "\<lparr>file_id = fid\<rparr>" v] have "r = Inl e" by simp
    with d show ?thesis by (simp add: bind_def)
  qed
  then have "fst (run_step env (failing_ctx e) (DownloadFileEvent \<lparr>file_id = fid\<rparr>) w) = Inl e"
    unfolding run_step_def by (rule retry_always_fails)
  then obtain v' where
    "run_step env (failing_ctx e) (DownloadFileEvent \<lparr>file_id = fid\<rparr>) w = (Inl e, v')"
    by (cases "run_step env (failing_ctx e) (DownloadFileEvent \<lparr>file_id = fid\<rparr>) w") simp
  then have "fst (run env (failing_ctx e) fid w) = Failed e"
    by (simp add: run_skips_run_file)
  with same show ?thesis by simp
qed

theorem emissions_only_observe_witness:
  "fst (run demo_env silent_ctx ''f1'' world0) = Completed ''item-''
   \<and> fst (run demo_env stream_ctx ''f1'' world0) = Completed ''item-''
   \<and> store (snd (run demo_env silent_ctx ''f1'' world0)) = [(''item-'', extracted1)]"
proof -
  have "fst (run demo_env stream_ctx ''f1'' world0) = Completed ''item-''"
    and "store (snd (run demo_env stream_ctx ''f1'' world0)) = [(''item-'', extracted1)]"
    by (simp_all add: eval)
  with emissions_only_observe[of demo_env "''f1''" world0] show ?thesis by simp
qed

theorem emission_failure_counterexample:
  "fst (run demo_env (failing_ctx (CollaboratorError ''stream closed'')) ''f1'' world0)
     = Failed (CollaboratorError ''stream closed'')
   \<and> fst (run demo_env silent_ctx ''f1'' world0) = Completed ''item-''"
  by (simp add: eval failing_ctx_def silent_ctx_def)

end
